theory Spec2Isabelle
  imports Main "HOL-Library.Word"
begin

section \<open>Values exchanged with the libraries\<close>

text \<open>
  A Python \<open>str\<close> is modelled as a \<open>string\<close>, one \<open>char\<close> per character, so that
  \<open>length\<close> is Python's \<open>len\<close>; the miners only concatenate and measure strings.
  Raw bytes (the signature, the encoded payload) are lists of 8-bit words.
\<close>

type_synonym bytes = "8 word list"

text \<open>
  The values \<open>json.loads\<close> yields and \<open>json.dumps\<close> takes. A dict is an association
  list: Python dicts keep insertion order, and the order of the keys of
  \<open>response_data\<close> is part of what is signed. The keys of a dict are distinct, so a
  lookup finds the one entry of a key. Floats are left out.
\<close>

datatype json =
    JNull
  | JBool bool
  | JInt int
  | JStr string
  | JArr "json list"
  | JObj "(string \<times> json) list"

text \<open>Python's truth value of a JSON value, as \<open>if not chunks\<close> reads it.\<close>

fun truthy :: "json \<Rightarrow> bool" where
  "truthy JNull = False"
| "truthy (JBool b) = b"
| "truthy (JInt n) = (n \<noteq> 0)"
| "truthy (JStr s) = (s \<noteq> [])"
| "truthy (JArr xs) = (xs \<noteq> [])"
| "truthy (JObj kvs) = (kvs \<noteq> [])"

text \<open>
  The exceptions of the model-backed miner: what the service call or the parse of its
  answer raises, \<open>get\<close> on a value that is no dict, and the \<open>ValueError\<close> of line 62.
\<close>

datatype exn =
    ServiceError
  | JSONDecodeError
  | AttributeError
  | ValueError

text \<open>
  \<open>content.get("chunks", [])\<close>: the value under the key, the default when the key is
  absent; on a value that is no dict the attribute \<open>get\<close> does not exist.
\<close>

fun dict_get :: "json \<Rightarrow> string \<Rightarrow> json \<Rightarrow> exn + json" where
  "dict_get (JObj kvs) k d = (case map_of kvs k of None \<Rightarrow> Inr d | Some v \<Rightarrow> Inr v)"
| "dict_get _ k d = Inl AttributeError"

text \<open>Python's \<open>sep.join(xs)\<close>.\<close>

fun join_with :: "string \<Rightarrow> string list \<Rightarrow> string" where
  "join_with sep [] = []"
| "join_with sep [x] = x"
| "join_with sep (x # y # ys) = x @ sep @ join_with sep (y # ys)"

text \<open>\<open>bytes.hex()\<close>: two lowercase hexadecimal digits per byte, high nibble first.\<close>

definition hexdigits :: string where
  "hexdigits = ''0123456789abcdef''"

definition hex :: "bytes \<Rightarrow> string" where
  "hex bs = concat (map (\<lambda>b. [hexdigits ! (unat b div 16), hexdigits ! (unat b mod 16)]) bs)"

section \<open>The request record and the process environment\<close>

text \<open>
  \<open>chunkSynapse\<close>: the fields the miners read and write. \<open>chunks\<close> and
  \<open>miner_signature\<close> are \<open>None\<close> until a miner assigns them; Python stores whatever
  value is assigned, so \<open>chunks\<close> holds a JSON value.
\<close>

record chunkSynapse =
  document :: string
  chunk_size :: int
  chunk_qty :: int
  chunks :: "json option"
  miner_signature :: "string option"

text \<open>
  What the miners call outside the repository: NLTK's \<open>sent_tokenize\<close>, the
  text-generation service (the outcome of \<open>chat.completions.create\<close> followed by
  \<open>json.loads\<close> on the k-th call: \<open>Inl\<close> when either raised, \<open>Inr\<close> the parsed content),
  \<open>json.dumps\<close>, \<open>str.encode\<close>, sr25519's \<open>sign\<close> (with whatever randomness the signer
  draws) and the wallet's hotkey pair. The detector, the serializer and the signer are
  taken to return: the miners catch nothing they raise.
\<close>

record env =
  sent_tokenize :: "string \<Rightarrow> string list"
  service :: "int \<Rightarrow> int \<Rightarrow> string \<Rightarrow> nat \<Rightarrow> exn + json"
  dumps :: "json \<Rightarrow> string"
  encode :: "string \<Rightarrow> bytes"
  sign :: "bytes \<times> bytes \<Rightarrow> bytes \<Rightarrow> bytes"
  public_key :: bytes
  private_key :: bytes

text \<open>
  Lines 47-57 of punkt\_miner.py and 66-75 of openai\_miner.py: \<open>response_data\<close> is
  built from the synapse after \<open>chunks\<close> was assigned, and the signature is stored
  in the synapse.
\<close>

definition response_data :: "chunkSynapse \<Rightarrow> json" where
  "response_data synapse = JObj
     [(''document'', JStr (document synapse)),
      (''chunk_size'', JInt (chunk_size synapse)),
      (''chunk_qty'', JInt (chunk_qty synapse)),
      (''chunks'', (case chunks synapse of None \<Rightarrow> JNull | Some v \<Rightarrow> v))]"

definition sign_response :: "env \<Rightarrow> chunkSynapse \<Rightarrow> chunkSynapse" where
  "sign_response e synapse =
     synapse\<lparr>miner_signature :=
       Some (hex (sign e (public_key e, private_key e)
                    (encode e (dumps e (response_data synapse)))))\<rparr>"

section \<open>The rule-based miner (punkt\_miner.py)\<close>

text \<open>
  One pass of the inner loop (lines 40-43) on \<open>(chunks[-1], document)\<close>, the two
  things it changes: \<open>None\<close> when the loop is left (no sentence remains, or \<open>break\<close>),
  otherwise the state after \<open>chunks[-1] += " " + document.pop(0)\<close>. The list of
  sentences, \<open>document\<close> in the source, is \<open>doc\<close> here, and the list \<open>chunks\<close> is
  \<open>cks\<close>: the two names are fields of the synapse.
\<close>

definition inner_iter :: "int \<Rightarrow> string \<times> string list \<Rightarrow> (string \<times> string list) option" where
  "inner_iter csize st =
     (case st of (cur, doc) \<Rightarrow>
        (case doc of
           [] \<Rightarrow> None
         | s # rest \<Rightarrow>
             if int (length (cur @ '' '' @ s)) > csize then None
             else Some (cur @ '' '' @ s, rest)))"

lemma inner_iter_shrinks:
  "inner_iter csize st = Some st' \<Longrightarrow> Suc (length (snd st')) = length (snd st)"
  by (auto simp: inner_iter_def split: prod.splits list.splits if_splits)

function inner_loop :: "int \<Rightarrow> string \<times> string list \<Rightarrow> string \<times> string list" where
  "inner_loop csize st =
     (case inner_iter csize st of None \<Rightarrow> st | Some st' \<Rightarrow> inner_loop csize st')"
  by pat_completeness auto
termination
  by (relation "measure (\<lambda>(csize, st). length (snd st))")
     (auto dest: inner_iter_shrinks)

declare inner_loop.simps [simp del]

lemma inner_loop_Nil [simp]: "inner_loop csize (cur, []) = (cur, [])"
  by (simp add: inner_loop.simps [of csize "(cur, [])"] inner_iter_def)

lemma inner_loop_Cons [simp]:
  "inner_loop csize (cur, s # rest) =
     (if int (length (cur @ '' '' @ s)) > csize then (cur, s # rest)
      else inner_loop csize (cur @ '' '' @ s, rest))"
  by (simp add: inner_loop.simps [of csize "(cur, s # rest)"] inner_iter_def)

lemma inner_loop_length: "length (snd (inner_loop csize (cur, doc))) \<le> length doc"
  by (induction doc arbitrary: cur) (auto intro: le_SucI)

text \<open>
  One pass of the outer loop (lines 37-43) on \<open>(chunks, document)\<close>: the first
  sentence is appended to \<open>chunks\<close> and deleted from \<open>document\<close>, then the inner loop
  runs.
\<close>

definition outer_iter ::
  "int \<Rightarrow> string list \<times> string list \<Rightarrow> (string list \<times> string list) option" where
  "outer_iter csize st =
     (case st of (cks, doc) \<Rightarrow>
        (case doc of
           [] \<Rightarrow> None
         | s # rest \<Rightarrow>
             (case inner_loop csize (s, rest) of
                (cur, doc') \<Rightarrow> Some (cks @ [cur], doc'))))"

lemma outer_iter_shrinks:
  "outer_iter csize st = Some st' \<Longrightarrow> length (snd st') < length (snd st)"
proof -
  assume a: "outer_iter csize st = Some st'"
  obtain cks doc where st: "st = (cks, doc)" by (cases st)
  from a st obtain s rest where doc: "doc = s # rest"
    by (cases doc) (auto simp: outer_iter_def)
  from a st doc have "snd st' = snd (inner_loop csize (s, rest))"
    by (auto simp: outer_iter_def split: prod.splits)
  with inner_loop_length [of csize s rest] st doc show ?thesis by simp
qed

function outer_loop :: "int \<Rightarrow> string list \<times> string list \<Rightarrow> string list \<times> string list" where
  "outer_loop csize st =
     (case outer_iter csize st of None \<Rightarrow> st | Some st' \<Rightarrow> outer_loop csize st')"
  by pat_completeness auto
termination
  by (relation "measure (\<lambda>(csize, st). length (snd st))")
     (auto dest: outer_iter_shrinks)

declare outer_loop.simps [simp del]

lemma outer_loop_Nil [simp]: "outer_loop csize (cks, []) = (cks, [])"
  by (simp add: outer_loop.simps [of csize "(cks, [])"] outer_iter_def)

lemma outer_loop_Cons [simp]:
  "outer_loop csize (cks, s # rest) =
     outer_loop csize (cks @ [fst (inner_loop csize (s, rest))],
                      snd (inner_loop csize (s, rest)))"
  by (simp add: outer_loop.simps [of csize "(cks, s # rest)"] outer_iter_def
           split: prod.splits)

text \<open>\<open>miner_process\<close> of punkt\_miner.py, lines 30-59.\<close>

definition punkt_miner_process :: "env \<Rightarrow> chunkSynapse \<Rightarrow> chunkSynapse" where
  "punkt_miner_process e synapse =
     (let doc = sent_tokenize e (document synapse);
          chunks' = fst (outer_loop (chunk_size synapse) ([], doc));
          synapse' = synapse\<lparr>chunks := Some (JArr (map JStr chunks'))\<rparr>
      in sign_response e synapse')"

section \<open>The model-backed miner (openai\_miner.py)\<close>

text \<open>
  The synapse is one object, changed in place and seen by every attempt, so it is part
  of the state, beside the number of calls made to the service and the delays slept.
\<close>

record world =
  syn :: chunkSynapse
  calls :: nat
  slept :: "int list"

text \<open>
  The body of \<open>miner_process\<close>, lines 35-77, one attempt. The prompt is built from
  \<open>chunk_qty\<close>, \<open>chunk_size\<close> and the document, which are what the service is given
  here. Nothing is assigned to the synapse before the last \<open>raise\<close>.
\<close>

definition openai_miner_body :: "env \<Rightarrow> world \<Rightarrow> (exn + chunkSynapse) \<times> world" where
  "openai_miner_body e w =
     (let synapse = syn w;
          w1 = w\<lparr>calls := Suc (calls w)\<rparr>
      in case service e (chunk_qty synapse) (chunk_size synapse) (document synapse) (calls w) of
           Inl ex \<Rightarrow> (Inl ex, w1)
         | Inr content \<Rightarrow>
             (case dict_get content ''chunks'' (JArr []) of
                Inl ex \<Rightarrow> (Inl ex, w1)
              | Inr chunks' \<Rightarrow>
                  if \<not> truthy chunks' then (Inl ValueError, w1)
                  else (let synapse' = sign_response e (synapse\<lparr>chunks := Some chunks'\<rparr>)
                        in (Inr synapse', w1\<lparr>syn := synapse'\<rparr>))))"

text \<open>
  The decorator of lines 30-34 is the \<open>retry\<close> package's, which catches every
  \<open>Exception\<close> by default. Its loop, with no jitter and no maximal delay, is
  \<^verbatim>\<open>
    _tries, _delay = tries, delay
    while _tries:
        try:
            return f()
        except exceptions as e:
            _tries -= 1
            if not _tries:
                raise
            time.sleep(_delay)
            _delay *= backoff
  \<close>
  A loop that is left without a call returns \<open>None\<close>.
\<close>

definition sleep :: "int \<Rightarrow> world \<Rightarrow> world" where
  "sleep d w = w\<lparr>slept := slept w @ [d]\<rparr>"

fun retry_internal ::
  "(world \<Rightarrow> (exn + 'a) \<times> world) \<Rightarrow> nat \<Rightarrow> int \<Rightarrow> int \<Rightarrow> world \<Rightarrow> (exn + 'a option) \<times> world" where
  "retry_internal f 0 delay backoff w = (Inr None, w)"
| "retry_internal f (Suc n) delay backoff w =
     (case f w of
        (Inr v, w') \<Rightarrow> (Inr (Some v), w')
      | (Inl ex, w') \<Rightarrow>
          if n = 0 then (Inl ex, w')
          else retry_internal f n (delay * backoff) backoff (sleep delay w'))"

text \<open>\<open>miner_process\<close> as decorated: \<open>tries=3, delay=1, backoff=2\<close>.\<close>

definition openai_miner_process :: "env \<Rightarrow> world \<Rightarrow> (exn + chunkSynapse option) \<times> world" where
  "openai_miner_process e w = retry_internal (openai_miner_body e) 3 1 2 w"

section \<open>Stand-ins for the libraries\<close>

text \<open>
  The theorems below hold for every environment. Closed instances need one: a sentence
  detector given by the table of its answers (no sentence for a document outside the
  table, as for the empty document), a service that gives the same answer to every
  call, a serializer in the style of \<open>json.dumps\<close> and a signer that is a fixed
  function of the key and the message.
\<close>

definition table_tokenize :: "(string \<times> string list) list \<Rightarrow> string \<Rightarrow> string list" where
  "table_tokenize tbl doc = (case map_of tbl doc of None \<Rightarrow> [] | Some ss \<Rightarrow> ss)"

definition const_service :: "exn + json \<Rightarrow> int \<Rightarrow> int \<Rightarrow> string \<Rightarrow> nat \<Rightarrow> exn + json" where
  "const_service r qty csize doc k = r"

fun digits10 :: "nat \<Rightarrow> string" where
  "digits10 n =
     (if n < 10 then [char_of (48 + n)]
      else digits10 (n div 10) @ [char_of (48 + n mod 10)])"

declare digits10.simps [simp del]

definition show_int :: "int \<Rightarrow> string" where
  "show_int i = (if i < 0 then CHR ''-'' # digits10 (nat (- i)) else digits10 (nat i))"

definition quote :: "string \<Rightarrow> string" where
  "quote s =
     [CHR 0x22] @
     concat (map (\<lambda>c. if c = CHR 0x22 \<or> c = CHR 0x5C then [CHR 0x5C, c] else [c]) s) @
     [CHR 0x22]"

fun plain_dumps :: "json \<Rightarrow> string" where
  "plain_dumps JNull = ''null''"
| "plain_dumps (JBool b) = (if b then ''true'' else ''false'')"
| "plain_dumps (JInt i) = show_int i"
| "plain_dumps (JStr s) = quote s"
| "plain_dumps (JArr xs) = ''['' @ join_with '', '' (map plain_dumps xs) @ '']''"
| "plain_dumps (JObj kvs) =
     ''{'' @ join_with '', '' (map (\<lambda>kv. quote (fst kv) @ '': '' @ plain_dumps (snd kv)) kvs) @ ''}''"

definition ascii_encode :: "string \<Rightarrow> bytes" where
  "ascii_encode s = map (\<lambda>c. of_nat (of_char c)) s"

definition stub_sign :: "bytes \<times> bytes \<Rightarrow> bytes \<Rightarrow> bytes" where
  "stub_sign kp msg = snd kp @ take 8 msg"

definition stub_env :: "(string \<times> string list) list \<Rightarrow> exn + json \<Rightarrow> env" where
  "stub_env tbl r =
     \<lparr>sent_tokenize = table_tokenize tbl, service = const_service r,
      dumps = plain_dumps, encode = ascii_encode, sign = stub_sign,
      public_key = [1, 2], private_key = [3, 4]\<rparr>"

section \<open>Properties of the packing loops\<close>

lemma inner_loop_set: "set (snd (inner_loop csize (cur, doc))) \<subseteq> set doc"
  by (induction doc arbitrary: cur) auto

lemma inner_loop_bound:
  "fst (inner_loop csize (cur, doc)) = cur \<or>
   int (length (fst (inner_loop csize (cur, doc)))) \<le> csize"
proof (induction doc arbitrary: cur)
  case Nil
  show ?case by simp
next
  case (Cons s rest)
  show ?case
  proof (cases "int (length (cur @ '' '' @ s)) > csize")
    case True
    then show ?thesis by simp
  next
    case False
    with Cons [of "cur @ '' '' @ s"] show ?thesis by auto
  qed
qed

lemma inner_loop_nonempty:
  "cur \<noteq> [] \<Longrightarrow> fst (inner_loop csize (cur, doc)) \<noteq> []"
  by (induction doc arbitrary: cur) auto

lemma inner_loop_join:
  "join_with '' '' (fst (inner_loop csize (cur, doc)) # snd (inner_loop csize (cur, doc))) =
   join_with '' '' (cur # doc)"
proof (induction doc arbitrary: cur)
  case Nil
  show ?case by simp
next
  case (Cons s rest)
  have "join_with '' '' ((cur @ '' '' @ s) # rest) = join_with '' '' (cur # s # rest)"
    by (cases rest) simp_all
  with Cons [of "cur @ '' '' @ s"] show ?case by simp
qed

lemma join_sp_append:
  "xs \<noteq> [] \<Longrightarrow> ys \<noteq> [] \<Longrightarrow> join_with '' '' (xs @ ys) = join_with '' '' xs @ '' '' @ join_with '' '' ys"
  by (induction "'' ''" xs rule: join_with.induct) (auto simp: neq_Nil_conv)

lemma join_sp_cong_tail:
  "xs \<noteq> [] \<Longrightarrow> ys \<noteq> [] \<Longrightarrow> join_with '' '' xs = join_with '' '' ys \<Longrightarrow>
   join_with '' '' (acc @ xs) = join_with '' '' (acc @ ys)"
  by (cases "acc = []") (simp_all add: join_sp_append)

lemma outer_loop_consumes: "snd (outer_loop csize (acc, doc)) = []"
proof (induction doc arbitrary: acc rule: length_induct)
  case (1 doc)
  show ?case
  proof (cases doc)
    case Nil
    then show ?thesis by simp
  next
    case (Cons s rest)
    have "length (snd (inner_loop csize (s, rest))) < length doc"
      using inner_loop_length [of csize s rest] Cons by simp
    with 1 Cons show ?thesis by simp
  qed
qed

lemma outer_loop_bound:
  "c \<in> set (fst (outer_loop csize (acc, doc))) \<Longrightarrow>
   c \<in> set acc \<or> int (length c) \<le> csize \<or> (c \<in> set doc \<and> csize < int (length c))"
proof (induction doc arbitrary: acc rule: length_induct)
  case (1 doc)
  show ?case
  proof (cases doc)
    case Nil
    with 1 show ?thesis by simp
  next
    case (Cons s rest)
    let ?cur = "fst (inner_loop csize (s, rest))"
    let ?doc = "snd (inner_loop csize (s, rest))"
    have shorter: "length ?doc < length doc"
      using inner_loop_length [of csize s rest] Cons by simp
    have "c \<in> set (fst (outer_loop csize (acc @ [?cur], ?doc)))"
      using "1.prems" Cons by simp
    with "1.IH" shorter
    have "c \<in> set (acc @ [?cur]) \<or> int (length c) \<le> csize \<or>
          (c \<in> set ?doc \<and> csize < int (length c))"
      by blast
    moreover have "set ?doc \<subseteq> set doc"
      using inner_loop_set [of csize s rest] Cons by auto
    moreover have "?cur = s \<or> int (length ?cur) \<le> csize"
      by (rule inner_loop_bound)
    ultimately show ?thesis using Cons by (cases "int (length c) \<le> csize") auto
  qed
qed

lemma outer_loop_nonempty:
  "\<forall>s \<in> set doc. s \<noteq> [] \<Longrightarrow> c \<in> set (fst (outer_loop csize (acc, doc))) \<Longrightarrow>
   c \<in> set acc \<or> c \<noteq> []"
proof (induction doc arbitrary: acc rule: length_induct)
  case (1 doc)
  show ?case
  proof (cases doc)
    case Nil
    with 1 show ?thesis by simp
  next
    case (Cons s rest)
    let ?cur = "fst (inner_loop csize (s, rest))"
    let ?doc = "snd (inner_loop csize (s, rest))"
    have shorter: "length ?doc < length doc"
      using inner_loop_length [of csize s rest] Cons by simp
    have sub: "\<forall>s \<in> set ?doc. s \<noteq> []"
      using inner_loop_set [of csize s rest] "1.prems"(1) Cons by auto
    have "c \<in> set (fst (outer_loop csize (acc @ [?cur], ?doc)))"
      using "1.prems"(2) Cons by simp
    with "1.IH" shorter sub have "c \<in> set (acc @ [?cur]) \<or> c \<noteq> []"
      by blast
    moreover have "?cur \<noteq> []"
      using "1.prems"(1) Cons by (intro inner_loop_nonempty) simp
    ultimately show ?thesis by auto
  qed
qed

lemma outer_loop_join:
  "join_with '' '' (fst (outer_loop csize (acc, doc))) = join_with '' '' (acc @ doc)"
proof (induction doc arbitrary: acc rule: length_induct)
  case (1 doc)
  show ?case
  proof (cases doc)
    case Nil
    then show ?thesis by simp
  next
    case (Cons s rest)
    let ?cur = "fst (inner_loop csize (s, rest))"
    let ?doc = "snd (inner_loop csize (s, rest))"
    have shorter: "length ?doc < length doc"
      using inner_loop_length [of csize s rest] Cons by simp
    have "join_with '' '' (fst (outer_loop csize (acc, doc))) =
          join_with '' '' (fst (outer_loop csize (acc @ [?cur], ?doc)))"
      using Cons by simp
    also have "\<dots> = join_with '' '' ((acc @ [?cur]) @ ?doc)"
      using "1.IH" shorter by blast
    also have "\<dots> = join_with '' '' (acc @ (?cur # ?doc))"
      by simp
    also have "\<dots> = join_with '' '' (acc @ (s # rest))"
      by (rule join_sp_cong_tail) (simp_all add: inner_loop_join)
    finally show ?thesis using Cons by simp
  qed
qed

lemma inner_groups:
  "g \<noteq> [] \<Longrightarrow>
   \<exists>taken. doc = taken @ snd (inner_loop csize (join_with '' '' g, doc)) \<and>
           fst (inner_loop csize (join_with '' '' g, doc)) = join_with '' '' (g @ taken)"
proof (induction doc arbitrary: g)
  case Nil
  show ?case by simp
next
  case (Cons s rest)
  show ?case
  proof (cases "int (length (join_with '' '' g @ '' '' @ s)) > csize")
    case True
    then show ?thesis by simp
  next
    case False
    have step: "join_with '' '' g @ '' '' @ s = join_with '' '' (g @ [s])"
      using Cons.prems by (simp add: join_sp_append)
    from Cons.IH [of "g @ [s]"] obtain taken where
      t: "rest = taken @ snd (inner_loop csize (join_with '' '' (g @ [s]), rest))"
         "fst (inner_loop csize (join_with '' '' (g @ [s]), rest)) = join_with '' '' ((g @ [s]) @ taken)"
      by auto
    have "inner_loop csize (join_with '' '' g, s # rest) =
          inner_loop csize (join_with '' '' g @ '' '' @ s, rest)"
      using False by simp
    then have "inner_loop csize (join_with '' '' g, s # rest) =
          inner_loop csize (join_with '' '' (g @ [s]), rest)"
      by (simp only: step)
    with t have "s # rest = (s # taken) @ snd (inner_loop csize (join_with '' '' g, s # rest)) \<and>
         fst (inner_loop csize (join_with '' '' g, s # rest)) = join_with '' '' (g @ (s # taken))"
      by simp
    then show ?thesis by blast
  qed
qed

lemma outer_groups:
  "\<exists>gs. concat gs = doc \<and> [] \<notin> set gs \<and>
        fst (outer_loop csize (acc, doc)) = acc @ map (join_with '' '') gs"
proof (induction doc arbitrary: acc rule: length_induct)
  case (1 doc)
  show ?case
  proof (cases doc)
    case Nil
    have "concat [] = doc \<and> [] \<notin> set ([] :: string list list) \<and>
          fst (outer_loop csize (acc, doc)) = acc @ map (join_with '' '') []"
      using Nil by simp
    then show ?thesis by blast
  next
    case (Cons s rest)
    let ?cur = "fst (inner_loop csize (s, rest))"
    let ?doc = "snd (inner_loop csize (s, rest))"
    have shorter: "length ?doc < length doc"
      using inner_loop_length [of csize s rest] Cons by simp
    from inner_groups [of "[s]" rest csize] obtain taken where
      t: "rest = taken @ ?doc" "?cur = join_with '' '' (s # taken)"
      by auto
    from "1.IH" shorter obtain gs where
      gs: "concat gs = ?doc" "[] \<notin> set gs"
          "fst (outer_loop csize (acc @ [?cur], ?doc)) = (acc @ [?cur]) @ map (join_with '' '') gs"
      by blast
    have "concat ((s # taken) # gs) = doc" using t(1) gs(1) Cons by simp
    moreover have "[] \<notin> set ((s # taken) # gs)" using gs(2) by simp
    moreover have "fst (outer_loop csize (acc, doc)) = acc @ map (join_with '' '') ((s # taken) # gs)"
      using gs(3) t(2) Cons by simp
    ultimately show ?thesis by blast
  qed
qed

lemma punkt_chunks:
  "chunks (punkt_miner_process e synapse) =
   Some (JArr (map JStr (fst (outer_loop (chunk_size synapse) ([], sent_tokenize e (document synapse))))))"
  by (simp add: punkt_miner_process_def sign_response_def Let_def)

lemma map_JStr_inj: "map JStr xs = map JStr ys \<Longrightarrow> xs = ys"
  by (rule map_injective) (auto simp: inj_on_def)

lemma punkt_chunks_eq:
  "chunks (punkt_miner_process e synapse) = Some (JArr (map JStr cl)) \<Longrightarrow>
   cl = fst (outer_loop (chunk_size synapse) ([], sent_tokenize e (document synapse)))"
  by (simp add: punkt_chunks map_JStr_inj)

section \<open>The rule-based miner: the claims\<close>

text \<open>
  C1. Every chunk the rule-based miner emits is at most \<open>chunk_size\<close> characters long,
  unless it is a single sentence of the document that is itself longer than
  \<open>chunk_size\<close>: such a sentence is emitted as it is, neither extended nor split. This
  holds for every \<open>chunk_size\<close>, the positive ones among them.
\<close>

theorem punkt_chunk_within_size:
  assumes "chunks (punkt_miner_process e synapse) = Some (JArr (map JStr cl))"
    and "c \<in> set cl"
  shows "int (length c) \<le> chunk_size synapse \<or>
         (c \<in> set (sent_tokenize e (document synapse)) \<and> chunk_size synapse < int (length c))"
proof -
  have "cl = fst (outer_loop (chunk_size synapse) ([], sent_tokenize e (document synapse)))"
    using assms(1) by (rule punkt_chunks_eq)
  with assms(2)
    outer_loop_bound [of c "chunk_size synapse" "[]" "sent_tokenize e (document synapse)"]
  show ?thesis by simp
qed

theorem punkt_chunk_within_size_witness:
  "chunks (punkt_miner_process
      (stub_env [(''d'', [''aaaaaaa'', ''bb'', ''cc'', ''dd''])] (Inl ServiceError))
      \<lparr>document = ''d'', chunk_size = 5, chunk_qty = 1, chunks = None, miner_signature = None\<rparr>)
     = Some (JArr (map JStr [''aaaaaaa'', ''bb cc'', ''dd''])) \<and>
   ''aaaaaaa'' \<in> set [''aaaaaaa'', ''bb cc'', ''dd''] \<and>
   ''bb cc'' \<in> set [''aaaaaaa'', ''bb cc'', ''dd''] \<and>
   int (length ''bb cc'') \<le> 5 \<and>
   ''aaaaaaa'' \<in> set (sent_tokenize
      (stub_env [(''d'', [''aaaaaaa'', ''bb'', ''cc'', ''dd''])] (Inl ServiceError)) ''d'') \<and>
   (5::int) < int (length ''aaaaaaa'')"
proof -
  let ?e = "stub_env [(''d'', [''aaaaaaa'', ''bb'', ''cc'', ''dd''])] (Inl ServiceError)"
  let ?s = "\<lparr>document = ''d'', chunk_size = 5, chunk_qty = 1, chunks = None,
             miner_signature = None\<rparr>"
  have run: "chunks (punkt_miner_process ?e ?s) = Some (JArr (map JStr [''aaaaaaa'', ''bb cc'', ''dd'']))"
    by (simp add: punkt_miner_process_def stub_env_def table_tokenize_def sign_response_def)
  have m1: "''aaaaaaa'' \<in> set [''aaaaaaa'', ''bb cc'', ''dd'']" by simp
  have m2: "''bb cc'' \<in> set [''aaaaaaa'', ''bb cc'', ''dd'']" by simp
  from punkt_chunk_within_size [OF run m1] punkt_chunk_within_size [OF run m2] run
  show ?thesis by simp
qed

text \<open>
  C7. When the detector's sentences are non-empty (Punkt drops empty ones), every chunk of
  the rule-based miner is non-empty, and the chunks joined by single spaces are the
  sentences joined by single spaces. More precisely the chunks are the space-joins of
  consecutive non-empty groups of sentences that, concatenated, are the sentence
  sequence in its order.
\<close>

theorem punkt_lossless:
  assumes "\<forall>s \<in> set (sent_tokenize e (document synapse)). s \<noteq> []"
    and "chunks (punkt_miner_process e synapse) = Some (JArr (map JStr cl))"
  shows "(\<forall>c \<in> set cl. c \<noteq> []) \<and>
         join_with '' '' cl = join_with '' '' (sent_tokenize e (document synapse)) \<and>
         (\<exists>gs. concat gs = sent_tokenize e (document synapse) \<and> [] \<notin> set gs \<and>
               cl = map (join_with '' '') gs)"
proof -
  let ?doc = "sent_tokenize e (document synapse)"
  have cl: "cl = fst (outer_loop (chunk_size synapse) ([], ?doc))"
    using assms(2) by (rule punkt_chunks_eq)
  have "\<forall>c \<in> set cl. c \<noteq> []"
    using outer_loop_nonempty [OF assms(1), of _ "chunk_size synapse" "[]"] cl by auto
  moreover have "join_with '' '' cl = join_with '' '' ?doc"
    using outer_loop_join [of "chunk_size synapse" "[]" ?doc] cl by simp
  moreover have "\<exists>gs. concat gs = ?doc \<and> [] \<notin> set gs \<and> cl = map (join_with '' '') gs"
    using outer_groups [of ?doc "chunk_size synapse" "[]"] cl by simp
  ultimately show ?thesis by blast
qed

theorem punkt_lossless_witness:
  "sent_tokenize (stub_env [(''d'', [''aaaaaaa'', ''bb'', ''cc'', ''dd''])] (Inl ServiceError)) ''d''
     = [''aaaaaaa'', ''bb'', ''cc'', ''dd''] \<and>
   chunks (punkt_miner_process
      (stub_env [(''d'', [''aaaaaaa'', ''bb'', ''cc'', ''dd''])] (Inl ServiceError))
      \<lparr>document = ''d'', chunk_size = 5, chunk_qty = 1, chunks = None, miner_signature = None\<rparr>)
     = Some (JArr (map JStr [''aaaaaaa'', ''bb cc'', ''dd''])) \<and>
   [] \<notin> set [''aaaaaaa'', ''bb cc'', ''dd''] \<and>
   join_with '' '' [''aaaaaaa'', ''bb cc'', ''dd''] = join_with '' '' [''aaaaaaa'', ''bb'', ''cc'', ''dd'']"
proof -
  let ?e = "stub_env [(''d'', [''aaaaaaa'', ''bb'', ''cc'', ''dd''])] (Inl ServiceError)"
  let ?s = "\<lparr>document = ''d'', chunk_size = 5, chunk_qty = 1, chunks = None,
             miner_signature = None\<rparr>"
  have tok: "sent_tokenize ?e (document ?s) = [''aaaaaaa'', ''bb'', ''cc'', ''dd'']"
    by (simp add: stub_env_def table_tokenize_def)
  have ne: "\<forall>s \<in> set (sent_tokenize ?e (document ?s)). s \<noteq> []"
    by (simp add: stub_env_def table_tokenize_def)
  have run: "chunks (punkt_miner_process ?e ?s) = Some (JArr (map JStr [''aaaaaaa'', ''bb cc'', ''dd'']))"
    by (simp add: punkt_miner_process_def stub_env_def table_tokenize_def sign_response_def)
  from punkt_lossless [OF ne run] tok run show ?thesis by simp
qed

text \<open>
  C8. With a detector that splits the two documents of the scenarios at their sentence
  ends, the document "Sentence one. Sentence two. Sentence three." with
  \<open>chunk_size = 15\<close> gives the three sentences as three chunks, and the document
  "Hi. Bye." with \<open>chunk_size = 100\<close> gives the single chunk "Hi. Bye.".
\<close>

theorem punkt_scenarios:
  assumes "sent_tokenize e ''Sentence one. Sentence two. Sentence three.'' =
             [''Sentence one.'', ''Sentence two.'', ''Sentence three.'']"
    and "sent_tokenize e ''Hi. Bye.'' = [''Hi.'', ''Bye.'']"
  shows "chunks (punkt_miner_process e
           (synapse\<lparr>document := ''Sentence one. Sentence two. Sentence three.'', chunk_size := 15\<rparr>))
         = Some (JArr [JStr ''Sentence one.'', JStr ''Sentence two.'', JStr ''Sentence three.'']) \<and>
         chunks (punkt_miner_process e (synapse\<lparr>document := ''Hi. Bye.'', chunk_size := 100\<rparr>))
         = Some (JArr [JStr ''Hi. Bye.''])"
  using assms by (simp add: punkt_chunks)

theorem punkt_scenarios_witness:
  "chunks (punkt_miner_process
      (stub_env [(''Sentence one. Sentence two. Sentence three.'',
                    [''Sentence one.'', ''Sentence two.'', ''Sentence three.'']),
                 (''Hi. Bye.'', [''Hi.'', ''Bye.''])] (Inl ServiceError))
      \<lparr>document = ''Sentence one. Sentence two. Sentence three.'', chunk_size = 15,
         chunk_qty = 3, chunks = None, miner_signature = None\<rparr>)
     = Some (JArr [JStr ''Sentence one.'', JStr ''Sentence two.'', JStr ''Sentence three.'']) \<and>
   chunks (punkt_miner_process
      (stub_env [(''Sentence one. Sentence two. Sentence three.'',
                    [''Sentence one.'', ''Sentence two.'', ''Sentence three.'']),
                 (''Hi. Bye.'', [''Hi.'', ''Bye.''])] (Inl ServiceError))
      \<lparr>document = ''Hi. Bye.'', chunk_size = 100,
         chunk_qty = 3, chunks = None, miner_signature = None\<rparr>)
     = Some (JArr [JStr ''Hi. Bye.''])"
proof -
  let ?e = "stub_env [(''Sentence one. Sentence two. Sentence three.'',
                    [''Sentence one.'', ''Sentence two.'', ''Sentence three.'']),
                 (''Hi. Bye.'', [''Hi.'', ''Bye.''])] (Inl ServiceError)"
  let ?s = "\<lparr>document = [], chunk_size = 0, chunk_qty = 3, chunks = None,
             miner_signature = None\<rparr>"
  have t1: "sent_tokenize ?e ''Sentence one. Sentence two. Sentence three.'' =
             [''Sentence one.'', ''Sentence two.'', ''Sentence three.'']"
    by (simp add: stub_env_def table_tokenize_def)
  have t2: "sent_tokenize ?e ''Hi. Bye.'' = [''Hi.'', ''Bye.'']"
    by (simp add: stub_env_def table_tokenize_def)
  from punkt_scenarios [OF t1 t2, of ?s] show ?thesis by simp
qed

text \<open>
  C9. The chunks of the rule-based miner are a function of the document and of
  \<open>chunk_size\<close> alone: two requests that agree on both get the same chunks, whatever
  their \<open>chunk_qty\<close> and their other fields.
\<close>

theorem punkt_ignores_chunk_qty:
  assumes "document s1 = document s2" and "chunk_size s1 = chunk_size s2"
  shows "chunks (punkt_miner_process e s1) = chunks (punkt_miner_process e s2)"
  using assms by (simp add: punkt_chunks)

theorem punkt_ignores_chunk_qty_witness:
  "chunks (punkt_miner_process (stub_env [(''d'', [''aaaaaaa'', ''bb'', ''cc'', ''dd''])] (Inl ServiceError))
      \<lparr>document = ''d'', chunk_size = 5, chunk_qty = 1, chunks = None, miner_signature = None\<rparr>) =
   chunks (punkt_miner_process (stub_env [(''d'', [''aaaaaaa'', ''bb'', ''cc'', ''dd''])] (Inl ServiceError))
      \<lparr>document = ''d'', chunk_size = 5, chunk_qty = 40, chunks = None, miner_signature = None\<rparr>)"
  by (rule punkt_ignores_chunk_qty) simp_all

text \<open>
  C10. The packing loops end on every input. A pass of the inner loop that does not
  leave the loop removes exactly one sentence from the remaining ones, a pass of the
  outer loop removes at least one, and the outer loop ends in a state with no sentence
  left, where it is left. (The two loops are total functions by their termination
  proofs, on the number of remaining sentences.)
\<close>

theorem packing_terminates:
  "(\<forall>ist'. inner_iter csize ist = Some ist' \<longrightarrow> Suc (length (snd ist')) = length (snd ist)) \<and>
   (\<forall>st'. outer_iter csize st = Some st' \<longrightarrow> length (snd st') < length (snd st)) \<and>
   snd (outer_loop csize st) = [] \<and>
   outer_iter csize (outer_loop csize st) = None"
proof -
  obtain acc doc where st: "st = (acc, doc)" by (cases st)
  have fin: "snd (outer_loop csize st) = []"
    unfolding st by (rule outer_loop_consumes)
  then have "outer_iter csize (outer_loop csize st) = None"
    by (cases "outer_loop csize st") (simp add: outer_iter_def)
  with fin show ?thesis
    by (auto dest: inner_iter_shrinks outer_iter_shrinks)
qed

theorem packing_terminates_witness:
  "inner_iter 5 (''bb'', [''cc'', ''dd'']) = Some (''bb cc'', [''dd'']) \<and>
   Suc (length (snd (''bb cc'', [''dd'']))) = length (snd (''bb'', [''cc'', ''dd''])) \<and>
   outer_iter 5 ([''aaaaaaa''], [''bb'', ''cc'', ''dd'']) = Some ([''aaaaaaa'', ''bb cc''], [''dd'']) \<and>
   length (snd ([''aaaaaaa'', ''bb cc''], [''dd''])) < length (snd ([''aaaaaaa''], [''bb'', ''cc'', ''dd''])) \<and>
   snd (outer_loop 5 ([''aaaaaaa''], [''bb'', ''cc'', ''dd''])) = [] \<and>
   outer_iter 5 (outer_loop 5 ([''aaaaaaa''], [''bb'', ''cc'', ''dd''])) = None"
proof -
  have i: "inner_iter 5 (''bb'', [''cc'', ''dd'']) = Some (''bb cc'', [''dd''])"
    by (simp add: inner_iter_def)
  have o: "outer_iter 5 ([''aaaaaaa''], [''bb'', ''cc'', ''dd'']) = Some ([''aaaaaaa'', ''bb cc''], [''dd''])"
    by (simp add: outer_iter_def)
  from packing_terminates [of 5 "(''bb'', [''cc'', ''dd''])" "([''aaaaaaa''], [''bb'', ''cc'', ''dd''])"] i o
  show ?thesis by simp
qed

section \<open>Properties of the signature and of the model-backed miner\<close>

lemma hexdigit_mem: "n < 16 \<Longrightarrow> hexdigits ! n \<in> set hexdigits"
  by (rule nth_mem) (simp add: hexdigits_def)

lemma hex_lowercase: "set (hex bs) \<subseteq> set hexdigits"
proof -
  have "unat b div 16 < 16" for b :: "8 word"
    using unsigned_less [of b, where ?'a = nat] by simp
  then show ?thesis
    by (auto simp: hex_def intro: hexdigit_mem)
qed

lemma response_data_sign_response [simp]:
  "response_data (sign_response e s) = response_data s"
  by (simp add: response_data_def sign_response_def)

lemma sign_response_fields [simp]:
  "document (sign_response e s) = document s"
  "chunk_size (sign_response e s) = chunk_size s"
  "chunk_qty (sign_response e s) = chunk_qty s"
  "chunks (sign_response e s) = chunks s"
  "miner_signature (sign_response e s) =
     Some (hex (sign e (public_key e, private_key e) (encode e (dumps e (response_data s)))))"
  by (simp_all add: sign_response_def)

lemma body_success:
  assumes "openai_miner_body e w = (Inr r, w')"
  shows "\<exists>kvs v.
           service e (chunk_qty (syn w)) (chunk_size (syn w)) (document (syn w)) (calls w) =
             Inr (JObj kvs) \<and>
           map_of kvs ''chunks'' = Some v \<and> truthy v \<and>
           r = sign_response e ((syn w)\<lparr>chunks := Some v\<rparr>) \<and>
           w' = w\<lparr>calls := Suc (calls w), syn := r\<rparr>"
proof -
  let ?reply = "service e (chunk_qty (syn w)) (chunk_size (syn w)) (document (syn w)) (calls w)"
  from assms obtain content where c: "?reply = Inr content"
    by (cases ?reply) (auto simp: openai_miner_body_def Let_def)
  from assms c obtain kvs where k: "content = JObj kvs"
    by (cases content) (auto simp: openai_miner_body_def Let_def)
  from assms c k obtain v where v: "map_of kvs ''chunks'' = Some v"
    by (cases "map_of kvs ''chunks''") (auto simp: openai_miner_body_def Let_def)
  from assms c k v have "truthy v \<and> r = sign_response e ((syn w)\<lparr>chunks := Some v\<rparr>) \<and>
      w' = w\<lparr>calls := Suc (calls w), syn := r\<rparr>"
    by (auto simp: openai_miner_body_def Let_def split: if_splits)
  with c k v show ?thesis by blast
qed

lemma body_failure:
  assumes "openai_miner_body e w = (Inl ex, w')"
  shows "w' = w\<lparr>calls := Suc (calls w)\<rparr>"
  using assms
  by (auto simp: openai_miner_body_def Let_def split: sum.splits if_splits)

lemma body_empty:
  assumes "service e (chunk_qty (syn w)) (chunk_size (syn w)) (document (syn w)) (calls w) =
             Inr (JObj kvs)"
    and "map_of kvs ''chunks'' = None \<or> map_of kvs ''chunks'' = Some (JArr [])"
  shows "openai_miner_body e w = (Inl ValueError, w\<lparr>calls := Suc (calls w)\<rparr>)"
  using assms by (auto simp: openai_miner_body_def Let_def)

lemma retry_success:
  "retry_internal (openai_miner_body e) n d b w = (Inr (Some r), w') \<Longrightarrow>
   \<exists>w0. syn w0 = syn w \<and> openai_miner_body e w0 = (Inr r, w')"
proof (induction n arbitrary: d w)
  case 0
  then show ?case by simp
next
  case (Suc n)
  obtain res w1 where b: "openai_miner_body e w = (res, w1)"
    by (cases "openai_miner_body e w")
  show ?case
  proof (cases res)
    case (Inr v)
    with Suc.prems b have "openai_miner_body e w = (Inr r, w')" by simp
    then show ?thesis by blast
  next
    case (Inl ex)
    with b have w1: "w1 = w\<lparr>calls := Suc (calls w)\<rparr>" by (simp add: body_failure)
    from Suc.prems b Inl have n: "n \<noteq> 0" by (auto split: if_splits)
    with Suc.prems b Inl
    have "retry_internal (openai_miner_body e) n (d * b) b (sleep d w1) = (Inr (Some r), w')"
      by simp
    from Suc.IH [OF this] w1 show ?thesis by (simp add: sleep_def)
  qed
qed

lemma retry_failure:
  "retry_internal (openai_miner_body e) n d b w = (Inl ex, w') \<Longrightarrow> syn w' = syn w"
proof (induction n arbitrary: d w)
  case 0
  then show ?case by simp
next
  case (Suc n)
  obtain res w1 where b: "openai_miner_body e w = (res, w1)"
    by (cases "openai_miner_body e w")
  show ?case
  proof (cases res)
    case (Inr v)
    with Suc.prems b show ?thesis by simp
  next
    case (Inl ex1)
    with b have w1: "w1 = w\<lparr>calls := Suc (calls w)\<rparr>" by (simp add: body_failure)
    show ?thesis
    proof (cases "n = 0")
      case True
      with Suc.prems b Inl w1 show ?thesis by auto
    next
      case False
      with Suc.prems b Inl
      have "retry_internal (openai_miner_body e) n (d * b) b (sleep d w1) = (Inl ex, w')"
        by simp
      from Suc.IH [OF this] w1 show ?thesis by (simp add: sleep_def)
    qed
  qed
qed

lemma retry_none:
  "retry_internal f n d b w = (Inr None, w') \<Longrightarrow> n = 0"
  by (induction n arbitrary: d w) (auto split: prod.splits sum.splits if_splits)




lemma punkt_signature: "miner_signature (punkt_miner_process e synapse) \<noteq> None"
  by (simp add: punkt_miner_process_def Let_def)

section \<open>The signature and the model-backed miner: the claims\<close>

text \<open>
  C4. A synapse returned by either miner (by the model-backed one: on success) carries, as
  \<open>miner_signature\<close>, the lowercase hexadecimal digits of the signature that \<open>sign\<close>
  computes with the hotkey pair over the encoded \<open>json.dumps\<close> of the object with the
  keys \<open>document\<close>, \<open>chunk_size\<close>, \<open>chunk_qty\<close>, \<open>chunks\<close>, in this order, whose values
  are the fields of the returned synapse itself, \<open>chunks\<close> being the chunks just
  assigned.
\<close>

theorem signature_over_outgoing:
  assumes "r = punkt_miner_process e synapse \<or> openai_miner_process e w = (Inr (Some r), w')"
  shows "\<exists>v. chunks r = Some v \<and>
           miner_signature r =
             Some (hex (sign e (public_key e, private_key e)
               (encode e (dumps e (JObj
                  [(''document'', JStr (document r)),
                   (''chunk_size'', JInt (chunk_size r)),
                   (''chunk_qty'', JInt (chunk_qty r)),
                   (''chunks'', v)]))))) \<and>
           (\<forall>c \<in> set (hex (sign e (public_key e, private_key e)
               (encode e (dumps e (JObj
                  [(''document'', JStr (document r)),
                   (''chunk_size'', JInt (chunk_size r)),
                   (''chunk_qty'', JInt (chunk_qty r)),
                   (''chunks'', v)]))))). c \<in> set ''0123456789abcdef'')"
proof -
  have signed: "\<exists>v. chunks r = Some v \<and>
           miner_signature r =
             Some (hex (sign e (public_key e, private_key e)
               (encode e (dumps e (JObj
                  [(''document'', JStr (document r)),
                   (''chunk_size'', JInt (chunk_size r)),
                   (''chunk_qty'', JInt (chunk_qty r)),
                   (''chunks'', v)])))))"
    using assms
  proof
    assume "r = punkt_miner_process e synapse"
    then show ?thesis
      by (simp add: punkt_miner_process_def Let_def response_data_def)
  next
    assume "openai_miner_process e w = (Inr (Some r), w')"
    then obtain w0 where "openai_miner_body e w0 = (Inr r, w')"
      unfolding openai_miner_process_def by (blast dest: retry_success)
    then obtain v where "r = sign_response e ((syn w0)\<lparr>chunks := Some v\<rparr>)"
      by (blast dest: body_success)
    then show ?thesis
      by (simp add: response_data_def)
  qed
  have "c \<in> set ''0123456789abcdef''" if "c \<in> set (hex bs)" for c bs
    using that hex_lowercase [of bs] unfolding hexdigits_def by (rule subsetD [rotated])
  with signed show ?thesis by blast
qed

theorem signature_over_outgoing_witness:
  "openai_miner_process (stub_env [] (Inr (JObj [(''chunks'', JArr [JStr ''ab'', JStr ''cd''])])))
      \<lparr>syn = \<lparr>document = ''ab cd'', chunk_size = 5, chunk_qty = 2, chunks = None,
               miner_signature = None\<rparr>, calls = 0, slept = []\<rparr>
   = (Inr (Some (sign_response (stub_env [] (Inr (JObj [(''chunks'', JArr [JStr ''ab'', JStr ''cd''])])))
        \<lparr>document = ''ab cd'', chunk_size = 5, chunk_qty = 2,
           chunks = Some (JArr [JStr ''ab'', JStr ''cd'']), miner_signature = None\<rparr>)),
      \<lparr>syn = sign_response (stub_env [] (Inr (JObj [(''chunks'', JArr [JStr ''ab'', JStr ''cd''])])))
        \<lparr>document = ''ab cd'', chunk_size = 5, chunk_qty = 2,
           chunks = Some (JArr [JStr ''ab'', JStr ''cd'']), miner_signature = None\<rparr>,
        calls = 1, slept = []\<rparr>) \<and>
   miner_signature (sign_response (stub_env [] (Inr (JObj [(''chunks'', JArr [JStr ''ab'', JStr ''cd''])])))
        \<lparr>document = ''ab cd'', chunk_size = 5, chunk_qty = 2,
           chunks = Some (JArr [JStr ''ab'', JStr ''cd'']), miner_signature = None\<rparr>) =
     Some (hex (stub_sign ([1, 2], [3, 4])
              (ascii_encode (plain_dumps (JObj
                  [(''document'', JStr ''ab cd''),
                   (''chunk_size'', JInt 5),
                   (''chunk_qty'', JInt 2),
                   (''chunks'', JArr [JStr ''ab'', JStr ''cd''])])))))"
proof -
  let ?e = "stub_env [] (Inr (JObj [(''chunks'', JArr [JStr ''ab'', JStr ''cd''])]))"
  let ?w = "\<lparr>syn = \<lparr>document = ''ab cd'', chunk_size = 5, chunk_qty = 2, chunks = None,
               miner_signature = None\<rparr>, calls = 0, slept = []\<rparr>"
  let ?r = "sign_response ?e \<lparr>document = ''ab cd'', chunk_size = 5, chunk_qty = 2,
           chunks = Some (JArr [JStr ''ab'', JStr ''cd'']), miner_signature = None\<rparr>"
  have run: "openai_miner_process ?e ?w = (Inr (Some ?r), \<lparr>syn = ?r, calls = 1, slept = []\<rparr>)"
    by (simp add: openai_miner_process_def openai_miner_body_def numeral_3_eq_3 Let_def
          stub_env_def const_service_def)
  from signature_over_outgoing [OF disjI2 [OF run]] run
  show ?thesis by (simp add: stub_env_def)
qed

text \<open>
  C3, as the code has it. When every attempt fails (the service or the parse raises, the
  content is no dict, or its chunks are missing or empty), the model-backed miner calls
  the service exactly three times, sleeps 1 and then 2 time units between the attempts,
  and raises the exception of the third attempt at once: nothing is returned.
\<close>

theorem retry_exhausted:
  assumes "\<forall>w1. syn w1 = syn w \<longrightarrow> isl (fst (openai_miner_body e w1))"
  shows "\<exists>ex.
           fst (openai_miner_body e (w\<lparr>calls := calls w + 2, slept := slept w @ [1, 2]\<rparr>)) =
             Inl ex \<and>
           openai_miner_process e w =
             (Inl ex, w\<lparr>calls := calls w + 3, slept := slept w @ [1, 2]\<rparr>)"
proof -
  have fail: "\<exists>ex. openai_miner_body e w1 = (Inl ex, w1\<lparr>calls := Suc (calls w1)\<rparr>)"
    if "syn w1 = syn w" for w1
  proof -
    from that assms have "isl (fst (openai_miner_body e w1))" by blast
    then obtain ex w1' where "openai_miner_body e w1 = (Inl ex, w1')"
      by (cases "openai_miner_body e w1") (auto simp: isl_def)
    then show ?thesis by (auto dest: body_failure)
  qed
  let ?w1 = "w\<lparr>calls := Suc (calls w)\<rparr>"
  let ?w2 = "(sleep 1 ?w1)\<lparr>calls := Suc (calls (sleep 1 ?w1))\<rparr>"
  let ?w3 = "(sleep 2 ?w2)\<lparr>calls := Suc (calls (sleep 2 ?w2))\<rparr>"
  from fail [of w] obtain ex1 where a1: "openai_miner_body e w = (Inl ex1, ?w1)"
    by auto
  from fail [of "sleep 1 ?w1"] obtain ex2 where a2: "openai_miner_body e (sleep 1 ?w1) = (Inl ex2, ?w2)"
    by (auto simp: sleep_def)
  from fail [of "sleep 2 ?w2"] obtain ex3 where a3: "openai_miner_body e (sleep 2 ?w2) = (Inl ex3, ?w3)"
    by (auto simp: sleep_def)
  have s2: "sleep 2 ?w2 = w\<lparr>calls := calls w + 2, slept := slept w @ [1, 2]\<rparr>"
    by (simp add: sleep_def)
  have w3: "?w3 = w\<lparr>calls := calls w + 3, slept := slept w @ [1, 2]\<rparr>"
    by (simp add: sleep_def)
  have "openai_miner_process e w = (Inl ex3, ?w3)"
    by (simp add: openai_miner_process_def numeral_3_eq_3 a1 a2 a3)
  with a3 s2 w3 show ?thesis by simp
qed

theorem retry_exhausted_witness:
  "openai_miner_process (stub_env [] (Inr (JObj [(''chunks'', JArr [])])))
      \<lparr>syn = \<lparr>document = ''ab cd'', chunk_size = 5, chunk_qty = 2, chunks = None,
               miner_signature = None\<rparr>, calls = 0, slept = []\<rparr>
   = (Inl ValueError,
      \<lparr>syn = \<lparr>document = ''ab cd'', chunk_size = 5, chunk_qty = 2, chunks = None,
               miner_signature = None\<rparr>, calls = 3, slept = [1, 2]\<rparr>)"
proof -
  let ?e = "stub_env [] (Inr (JObj [(''chunks'', JArr [])]))"
  let ?w = "\<lparr>syn = \<lparr>document = ''ab cd'', chunk_size = 5, chunk_qty = 2, chunks = None,
               miner_signature = None\<rparr>, calls = 0, slept = []\<rparr>"
  have always: "\<forall>w1. syn w1 = syn ?w \<longrightarrow> isl (fst (openai_miner_body ?e w1))"
    by (simp add: openai_miner_body_def stub_env_def const_service_def Let_def)
  from retry_exhausted [OF always]
  show ?thesis
    by (simp add: openai_miner_body_def stub_env_def const_service_def Let_def)
qed

text \<open>
  C3, as the claim has it: three delays 1, 2, 4. With a service that is never reachable
  there are three calls and two delays, 1 and 2; the delay grown to 4 is never slept.
\<close>

theorem three_attempts_two_delays:
  "fst (openai_miner_process (stub_env [] (Inl ServiceError))
      \<lparr>syn = \<lparr>document = ''ab cd'', chunk_size = 5, chunk_qty = 2, chunks = None,
               miner_signature = None\<rparr>, calls = 0, slept = []\<rparr>) = Inl ServiceError \<and>
   calls (snd (openai_miner_process (stub_env [] (Inl ServiceError))
      \<lparr>syn = \<lparr>document = ''ab cd'', chunk_size = 5, chunk_qty = 2, chunks = None,
               miner_signature = None\<rparr>, calls = 0, slept = []\<rparr>)) = 3 \<and>
   slept (snd (openai_miner_process (stub_env [] (Inl ServiceError))
      \<lparr>syn = \<lparr>document = ''ab cd'', chunk_size = 5, chunk_qty = 2, chunks = None,
               miner_signature = None\<rparr>, calls = 0, slept = []\<rparr>)) = [1, 2] \<and>
   slept (snd (openai_miner_process (stub_env [] (Inl ServiceError))
      \<lparr>syn = \<lparr>document = ''ab cd'', chunk_size = 5, chunk_qty = 2, chunks = None,
               miner_signature = None\<rparr>, calls = 0, slept = []\<rparr>)) \<noteq> [1, 2, 4]"
  by (simp add: openai_miner_process_def openai_miner_body_def numeral_3_eq_3 Let_def
        stub_env_def const_service_def sleep_def)




text \<open>
  C5, as the code has it. The model-backed miner neither returns nor signs an empty chunks
  value: an answer whose chunks are missing or the empty list raises \<open>ValueError\<close> and
  leaves the synapse as it was, a run that ends in an exception leaves the synapse as it
  was (so no signature is stored), and a run that returns does return a synapse, whose
  chunks are non-empty and which is signed. The rule-based miner has no error path: it
  signs and returns what the packing yields, which is the empty list exactly when the
  detector finds no sentence.
\<close>

theorem signature_only_on_success:
  "(openai_miner_process e w = (Inl ex, w') \<longrightarrow> syn w' = syn w) \<and>
   (openai_miner_process e w = (Inr ro, w') \<longrightarrow>
      (\<exists>r v. ro = Some r \<and> syn w' = r \<and> chunks r = Some v \<and> truthy v \<and>
             miner_signature r \<noteq> None)) \<and>
   (service e (chunk_qty (syn w)) (chunk_size (syn w)) (document (syn w)) (calls w) =
      Inr (JObj kvs) \<and>
    (map_of kvs ''chunks'' = None \<or> map_of kvs ''chunks'' = Some (JArr [])) \<longrightarrow>
      fst (openai_miner_body e w) = Inl ValueError \<and> syn (snd (openai_miner_body e w)) = syn w) \<and>
   (chunks (punkt_miner_process e synapse) = Some (JArr [])) =
      (sent_tokenize e (document synapse) = []) \<and>
   miner_signature (punkt_miner_process e synapse) \<noteq> None"
proof (intro conjI impI)
  assume "openai_miner_process e w = (Inl ex, w')"
  then show "syn w' = syn w"
    unfolding openai_miner_process_def by (rule retry_failure)
next
  assume a: "openai_miner_process e w = (Inr ro, w')"
  then obtain r where ro: "ro = Some r"
    unfolding openai_miner_process_def
    by (cases ro) (auto dest: retry_none)
  with a obtain w0 where "openai_miner_body e w0 = (Inr r, w')"
    unfolding openai_miner_process_def by (blast dest: retry_success)
  from body_success [OF this] ro
  show "\<exists>r v. ro = Some r \<and> syn w' = r \<and> chunks r = Some v \<and> truthy v \<and>
             miner_signature r \<noteq> None"
    by auto
next
  assume "service e (chunk_qty (syn w)) (chunk_size (syn w)) (document (syn w)) (calls w) =
      Inr (JObj kvs) \<and>
    (map_of kvs ''chunks'' = None \<or> map_of kvs ''chunks'' = Some (JArr []))"
  then have "openai_miner_body e w = (Inl ValueError, w\<lparr>calls := Suc (calls w)\<rparr>)"
    using body_empty [of e w kvs] by blast
  then show "fst (openai_miner_body e w) = Inl ValueError"
    and "syn (snd (openai_miner_body e w)) = syn w"
    by simp_all
next
  have "(fst (outer_loop csize (acc, doc)) = []) = (acc = [] \<and> doc = [])" for csize acc doc
    using outer_groups [of doc csize acc] by (cases doc) auto
  then show "(chunks (punkt_miner_process e synapse) = Some (JArr [])) =
      (sent_tokenize e (document synapse) = [])"
    by (simp add: punkt_chunks)
next
  show "miner_signature (punkt_miner_process e synapse) \<noteq> None"
    by (rule punkt_signature)
qed


theorem signature_only_on_success_witness:
  "openai_miner_process (stub_env [] (Inr (JObj [(''chunks'', JArr [])])))
      \<lparr>syn = \<lparr>document = ''ab cd'', chunk_size = 5, chunk_qty = 2, chunks = None,
               miner_signature = None\<rparr>, calls = 0, slept = []\<rparr>
   = (Inl ValueError,
      \<lparr>syn = \<lparr>document = ''ab cd'', chunk_size = 5, chunk_qty = 2, chunks = None,
               miner_signature = None\<rparr>, calls = 3, slept = [1, 2]\<rparr>) \<and>
   fst (openai_miner_body (stub_env [] (Inr (JObj [(''chunks'', JArr [])])))
      \<lparr>syn = \<lparr>document = ''ab cd'', chunk_size = 5, chunk_qty = 2, chunks = None,
               miner_signature = None\<rparr>, calls = 0, slept = []\<rparr>) = Inl ValueError \<and>
   openai_miner_process (stub_env [] (Inr (JObj [(''chunks'', JArr [JStr ''ab'', JStr ''cd''])])))
      \<lparr>syn = \<lparr>document = ''ab cd'', chunk_size = 5, chunk_qty = 2, chunks = None,
               miner_signature = None\<rparr>, calls = 0, slept = []\<rparr>
   = (Inr (Some (sign_response (stub_env [] (Inr (JObj [(''chunks'', JArr [JStr ''ab'', JStr ''cd''])])))
        \<lparr>document = ''ab cd'', chunk_size = 5, chunk_qty = 2,
           chunks = Some (JArr [JStr ''ab'', JStr ''cd'']), miner_signature = None\<rparr>)),
      \<lparr>syn = sign_response (stub_env [] (Inr (JObj [(''chunks'', JArr [JStr ''ab'', JStr ''cd''])])))
        \<lparr>document = ''ab cd'', chunk_size = 5, chunk_qty = 2,
           chunks = Some (JArr [JStr ''ab'', JStr ''cd'']), miner_signature = None\<rparr>,
        calls = 1, slept = []\<rparr>) \<and>
   miner_signature (sign_response (stub_env [] (Inr (JObj [(''chunks'', JArr [JStr ''ab'', JStr ''cd''])])))
        \<lparr>document = ''ab cd'', chunk_size = 5, chunk_qty = 2,
           chunks = Some (JArr [JStr ''ab'', JStr ''cd'']), miner_signature = None\<rparr>) \<noteq> None"
proof -
  let ?bad = "stub_env [] (Inr (JObj [(''chunks'', JArr [])]))"
  let ?good = "stub_env [] (Inr (JObj [(''chunks'', JArr [JStr ''ab'', JStr ''cd''])]))"
  let ?s = "\<lparr>document = ''ab cd'', chunk_size = 5, chunk_qty = 2, chunks = None,
               miner_signature = None\<rparr>"
  let ?w = "\<lparr>syn = ?s, calls = 0, slept = []\<rparr>"
  let ?r = "sign_response ?good \<lparr>document = ''ab cd'', chunk_size = 5, chunk_qty = 2,
           chunks = Some (JArr [JStr ''ab'', JStr ''cd'']), miner_signature = None\<rparr>"
  have failing: "openai_miner_process ?bad ?w = (Inl ValueError, \<lparr>syn = ?s, calls = 3, slept = [1, 2]\<rparr>)"
    by (simp add: openai_miner_process_def openai_miner_body_def numeral_3_eq_3 Let_def
          stub_env_def const_service_def sleep_def)
  have answer: "service ?bad (chunk_qty (syn ?w)) (chunk_size (syn ?w)) (document (syn ?w)) (calls ?w) =
      Inr (JObj [(''chunks'', JArr [])]) \<and>
      (map_of [(''chunks'', JArr [])] ''chunks'' = None \<or>
       map_of [(''chunks'', JArr [])] ''chunks'' = Some (JArr []))"
    by (simp add: stub_env_def const_service_def)
  have run: "openai_miner_process ?good ?w = (Inr (Some ?r), \<lparr>syn = ?r, calls = 1, slept = []\<rparr>)"
    by (simp add: openai_miner_process_def openai_miner_body_def numeral_3_eq_3 Let_def
          stub_env_def const_service_def)
  note bad = signature_only_on_success [of ?bad ?w ValueError
      "\<lparr>syn = ?s, calls = 3, slept = [1, 2]\<rparr>" None "[(''chunks'', JArr [])]" ?s]
  note good = signature_only_on_success [of ?good ?w ValueError
      "\<lparr>syn = ?r, calls = 1, slept = []\<rparr>" "Some ?r" "[]" ?s]
  from bad [THEN conjunct1, rule_format, OF failing]
       bad [THEN conjunct2, THEN conjunct2, THEN conjunct1, rule_format, OF answer]
       good [THEN conjunct2, THEN conjunct1, rule_format, OF run]
       failing run
  show ?thesis by auto
qed

text \<open>
  C5, as the claim has it: an empty chunks list is never signed as a success. On the empty
  document, where the detector finds no sentence, the rule-based miner returns the empty
  list and signs the payload that holds it.
\<close>

theorem rule_based_signs_empty_chunks:
  "chunks (punkt_miner_process (stub_env [] (Inl ServiceError))
      \<lparr>document = '''', chunk_size = 5, chunk_qty = 2, chunks = None, miner_signature = None\<rparr>)
     = Some (JArr []) \<and>
   miner_signature (punkt_miner_process (stub_env [] (Inl ServiceError))
      \<lparr>document = '''', chunk_size = 5, chunk_qty = 2, chunks = None, miner_signature = None\<rparr>)
     = Some (hex (stub_sign ([1, 2], [3, 4]) (ascii_encode (plain_dumps (JObj
          [(''document'', JStr ''''), (''chunk_size'', JInt 5), (''chunk_qty'', JInt 2),
           (''chunks'', JArr [])])))))"
  by (simp add: punkt_miner_process_def stub_env_def table_tokenize_def response_data_def)




end
